theory Spec2Isabelle
  imports Main
begin

section \<open>LivecastServer: data model\<close>

text \<open>
  The development follows \<^verbatim>\<open>src/index.js\<close> (class \<^verbatim>\<open>LivecastServer\<close>) and
  \<^verbatim>\<open>src/utils/utils.js\<close> (\<^verbatim>\<open>addTimeoutToPromise\<close>). Times are milliseconds
  (\<^typ>\<open>int\<close> for clock readings, \<^typ>\<open>nat\<close> for the delay after which an awaited
  promise settles). Everything the class does to the outside world (log lines, socket
  emits, file writes, unlink requests, handler calls) is appended to a trace held in the
  state, in the order the statements run.
\<close>

datatype error = Error string | TypeError string

text \<open>
  JavaScript values as far as the server looks into them: what \<^verbatim>\<open>JSON.parse\<close> can
  return, plus \<^verbatim>\<open>undefined\<close>. A number is kept as the text \<^verbatim>\<open>String(n)\<close> gives,
  the only thing the server ever does with one (it becomes a property key). An object is
  the list of its own properties.
\<close>

datatype jsval =
    Undefined
  | Null
  | Bool bool
  | Num string
  | Str string
  | Arr "jsval list"
  | Obj "(string \<times> jsval) list"

text \<open>
  Modelled from the spec: the class \<^verbatim>\<open>Snapshot\<close> (\<^verbatim>\<open>require('./snapshot')\<close>) is not
  among the sources. The spec's data model gives it the four fields below, with
  \<^verbatim>\<open>createdAt\<close> set at construction and \<^verbatim>\<open>age()\<close> the time elapsed since then,
  recomputed at each call.
\<close>

record snapshot =
  pageUrl :: string
  htmlContent :: string
  screenshotIndex :: "int option"
  createdAt :: int

definition new_Snapshot :: "int \<Rightarrow> string \<Rightarrow> string \<Rightarrow> int option \<Rightarrow> snapshot" where
  "new_Snapshot now url html idx =
     \<lparr>pageUrl = url, htmlContent = html, screenshotIndex = idx, createdAt = now\<rparr>"

definition age :: "int \<Rightarrow> snapshot \<Rightarrow> int" where
  "age now snap = now - createdAt snap"

datatype level = Debug | Info | Warning

datatype payload = PSnapshot snapshot | PData jsval

text \<open>
  A screenshot path is \<^verbatim>\<open>path.join(dir, `${index}.jpeg`)\<close>; it is kept as the pair of
  the directory and the index, \<open>None\<close> for the index \<^verbatim>\<open>null\<close>.
\<close>

type_synonym path = "string \<times> int option"

datatype effect =
    Log level string
  | LogError error string
  | Emit string payload
  | WriteFile path
  | Unlink path
  | Resolve jsval
  | Call string jsval

text \<open>
  A property of the \<^verbatim>\<open>promptHandlers\<close> object as \<^verbatim>\<open>promptHandlers[key]\<close> reads it:
  a function the caller registered, another value the caller stored, or, for an object
  literal, what the key finds on \<^verbatim>\<open>Object.prototype\<close>: one of its built-in
  functions, or the prototype object itself under \<^verbatim>\<open>__proto__\<close>.
\<close>

datatype property =
    Handler "jsval \<Rightarrow> error + jsval"
  | Plain jsval
  | Builtin string
  | ProtoObject

text \<open>
  The promise \<^verbatim>\<open>prompt\<close> waits on, as far as the stored resolve function can
  change it: a second call of the function does nothing.
\<close>

datatype promise = Unsettled | Fulfilled jsval

text \<open>
  The \<^verbatim>\<open>promptHandlers\<close> object: its own properties, each name once, and whether its
  prototype is \<^verbatim>\<open>Object.prototype\<close>, as for the default \<^verbatim>\<open>{}\<close> and any object
  literal.
\<close>

record handlers =
  own :: "(string \<times> property) list"
  plain_object :: bool

record server =
  screenshotDirectoryPath :: string
  maxScreenshotFiles :: int
  snapshotTimeoutMillis :: int
  maxSnapshotFrequencyMillis :: int
  useScreenshots :: bool
  promptHandlers :: handlers
  lastSnapshot :: "snapshot option"
  lastScreenshotIndex :: int
  clientCount :: int
  isRunning :: bool
  httpServer :: bool
  socketio :: bool
  port :: "int option"
  liveViewUrl :: "string option"
  servingSnapshot :: bool
  resolveMessagePromise :: "promise option"
  trace :: "effect list"

definition log :: "level \<Rightarrow> string \<Rightarrow> server \<Rightarrow> server" where
  "log l msg s = s\<lparr>trace := trace s @ [Log l msg]\<rparr>"

definition log_exception :: "error \<Rightarrow> string \<Rightarrow> server \<Rightarrow> server" where
  "log_exception err msg s = s\<lparr>trace := trace s @ [LogError err msg]\<rparr>"

text \<open>\<^verbatim>\<open>send(message, data)\<close>: a debug line, then \<^verbatim>\<open>socketio.emit\<close>.\<close>

definition send :: "string \<Rightarrow> payload \<Rightarrow> server \<Rightarrow> server" where
  "send message data s =
     (log Debug ''Sending websocket message'' s)
       \<lparr>trace := trace (log Debug ''Sending websocket message'' s) @ [Emit message data]\<rparr>"

text \<open>\<^verbatim>\<open>hasClients()\<close>: \<^verbatim>\<open>this.lastSnapshot ? this.clientCount > 0 : true\<close>.\<close>

definition hasClients :: "server \<Rightarrow> bool" where
  "hasClients s = (case lastSnapshot s of Some _ \<Rightarrow> clientCount s > 0 | None \<Rightarrow> True)"


section \<open>The page and the file system\<close>

text \<open>
  What an awaited promise of the environment does: it resolves with a value or rejects
  with an error after a delay (counted from the \<^verbatim>\<open>serve\<close> call that started the
  capture), or never settles.
\<close>

datatype 'a settle = Resolves nat 'a | Rejects nat error | Hangs

type_synonym bytes = "nat list"

record page =
  page_url :: "error + string"
  page_content :: "string settle"
  page_screenshot :: "bytes settle"

text \<open>
  \<^verbatim>\<open>Promise.all\<close> of two promises: rejects with the first rejection, resolves once
  both have resolved.
\<close>

fun promise_all :: "'a settle \<Rightarrow> 'b settle \<Rightarrow> ('a \<times> 'b) settle" where
  "promise_all (Rejects a e) (Rejects b f) = (if b < a then Rejects b f else Rejects a e)"
| "promise_all (Rejects a e) _ = Rejects a e"
| "promise_all _ (Rejects b f) = Rejects b f"
| "promise_all Hangs _ = Hangs"
| "promise_all _ Hangs = Hangs"
| "promise_all (Resolves a x) (Resolves b y) = Resolves (max a b) (x, y)"

section \<open>The capture procedure\<close>

text \<open>\<^verbatim>\<open>_getScreenshotPath(screenshotIndex)\<close>.\<close>

definition getScreenshotPath :: "server \<Rightarrow> int option \<Rightarrow> path" where
  "getScreenshotPath s i = (screenshotDirectoryPath s, i)"

text \<open>
  \<^verbatim>\<open>_deleteScreenshot\<close> starts \<^verbatim>\<open>unlink\<close> and does not wait for it; the request is
  what the trace records. A failure of the unlink is only logged, later.
\<close>

definition deleteScreenshot :: "int \<Rightarrow> server \<Rightarrow> server" where
  "deleteScreenshot i s = s\<lparr>trace := trace s @ [Unlink (getScreenshotPath s (Some i))]\<rparr>"

text \<open>
  \<^verbatim>\<open>_makeSnapshot\<close> is an async function with two awaits, so it runs in up to three
  pieces. Between the pieces it is one of the following: waiting for
  \<^verbatim>\<open>Promise.all\<close> (which will resolve after the given delay with the markup and the
  screenshot), or waiting for \<^verbatim>\<open>writeFile\<close>. The remaining fields are the local
  variables the rest of the body needs.
\<close>

datatype pending =
    AwaitGather nat string string "bytes option" "unit settle"
  | AwaitWrite nat string string "int option"

datatype progress =
    Settled nat "error + snapshot"
  | Waiting pending
  | Stuck

fun due :: "pending \<Rightarrow> nat" where
  "due (AwaitGather d _ _ _ _) = d"
| "due (AwaitWrite d _ _ _) = d"

text \<open>
  The second argument of \<^verbatim>\<open>Promise.all\<close>:
  \<^verbatim>\<open>this.useScreenshots ? page.screenshot({...}) : null\<close>.
\<close>

definition gather :: "page \<Rightarrow> server \<Rightarrow> (string \<times> bytes option) settle" where
  "gather p s =
     promise_all (page_content p)
       (if useScreenshots s then map_settle Some (page_screenshot p) else Resolves 0 None)"

text \<open>Up to the first await. A throw of \<^verbatim>\<open>page.url()\<close> rejects the promise at once.\<close>

definition makeSnapshot_start :: "page \<Rightarrow> unit settle \<Rightarrow> server \<Rightarrow> progress \<times> server" where
  "makeSnapshot_start p w s =
     (case page_url p of
        Inl e \<Rightarrow> (Settled 0 (Inl e), s)
      | Inr url \<Rightarrow>
          let s1 = log Info ''Making live view snapshot.'' s in
          (case gather p s1 of
             Rejects d e \<Rightarrow> (Settled d (Inl e), s1)
           | Hangs \<Rightarrow> (Stuck, s1)
           | Resolves d (html, shot) \<Rightarrow> (Waiting (AwaitGather d url html shot w), s1)))"

text \<open>
  The end of the body: \<^verbatim>\<open>new Snapshot(...)\<close>, \<^verbatim>\<open>this.lastSnapshot = snapshot\<close>,
  \<^verbatim>\<open>return snapshot\<close>, at clock reading \<open>now\<close>.
\<close>

definition makeSnapshot_finish ::
  "int \<Rightarrow> nat \<Rightarrow> string \<Rightarrow> string \<Rightarrow> int option \<Rightarrow> server \<Rightarrow> progress \<times> server" where
  "makeSnapshot_finish now d url html idx s =
     (let snap = new_Snapshot now url html idx
      in (Settled d (Inr snap), s\<lparr>lastSnapshot := Some snap\<rparr>))"

text \<open>The number a screenshot index stands for in a comparison or a subtraction.\<close>

definition to_number :: "int option \<Rightarrow> int" where
  "to_number idx = (case idx of None \<Rightarrow> 0 | Some i \<Rightarrow> i)"

text \<open>
  One resumption, at call time \<open>t0\<close> plus the delay of the awaited promise. After
  \<^verbatim>\<open>Promise.all\<close>: the index is taken,
  \<^verbatim>\<open>this.useScreenshots ? this.lastScreenshotIndex++ : null\<close>, and \<^verbatim>\<open>writeFile\<close>
  is awaited when there is a screenshot. After \<^verbatim>\<open>writeFile\<close>: the file exists, the
  old artifact is unlinked when \<^verbatim>\<open>screenshotIndex > this.maxScreenshotFiles - 1\<close>,
  and the body finishes.
\<close>

fun makeSnapshot_resume :: "int \<Rightarrow> pending \<Rightarrow> server \<Rightarrow> progress \<times> server" where
  "makeSnapshot_resume t0 (AwaitGather d url html shot w) s =
     (let idx = (if useScreenshots s then Some (lastScreenshotIndex s) else None);
          s1 = (if useScreenshots s
                then s\<lparr>lastScreenshotIndex := lastScreenshotIndex s + 1\<rparr> else s)
      in (case shot of
            None \<Rightarrow> makeSnapshot_finish (t0 + int d) d url html idx s1
          | Some b \<Rightarrow>
              (case w of
                 Resolves dw _ \<Rightarrow> (Waiting (AwaitWrite (d + dw) url html idx), s1)
               | Rejects dw e \<Rightarrow> (Settled (d + dw) (Inl e), s1)
               | Hangs \<Rightarrow> (Stuck, s1))))"
| "makeSnapshot_resume t0 (AwaitWrite d url html idx) s =
     (let s1 = s\<lparr>trace := trace s @ [WriteFile (getScreenshotPath s idx)]\<rparr>;
          s2 = (if to_number idx > maxScreenshotFiles s1 - 1
                then deleteScreenshot (to_number idx - maxScreenshotFiles s1) s1 else s1)
      in makeSnapshot_finish (t0 + int d) d url html idx s2)"

text \<open>
  Running the procedure for as long as its awaited promise settles before the limit:
  \<open>None\<close> is no limit, the procedure on its own.
\<close>

definition in_time :: "nat option \<Rightarrow> nat \<Rightarrow> bool" where
  "in_time limit d = (case limit of None \<Rightarrow> True | Some l \<Rightarrow> d < l)"

definition advance :: "nat option \<Rightarrow> int \<Rightarrow> progress \<times> server \<Rightarrow> progress \<times> server" where
  "advance limit t0 ps =
     (case fst ps of
        Waiting p \<Rightarrow> if in_time limit (due p) then makeSnapshot_resume t0 p (snd ps) else ps
      | _ \<Rightarrow> ps)"

definition makeSnapshot_until ::
  "nat option \<Rightarrow> int \<Rightarrow> page \<Rightarrow> unit settle \<Rightarrow> server \<Rightarrow> progress \<times> server" where
  "makeSnapshot_until limit t0 p w s =
     advance limit t0 (advance limit t0 (makeSnapshot_start p w s))"

definition makeSnapshot :: "int \<Rightarrow> page \<Rightarrow> unit settle \<Rightarrow> server \<Rightarrow> progress \<times> server" where
  "makeSnapshot t0 p w s = makeSnapshot_until None t0 p w s"


section \<open>The capture guard\<close>

text \<open>
  \<^verbatim>\<open>setTimeout\<close> of Node.js: a delay below 1 or above 2147483647 is set to 1.
\<close>

definition timer_delay :: "int \<Rightarrow> nat" where
  "timer_delay ms = (if ms < 1 \<or> 2147483647 < ms then 1 else nat ms)"

text \<open>
  \<^verbatim>\<open>addTimeoutToPromise(promise, timeoutMillis, errorMessage)\<close>: the promise against
  the timer. The first argument is how far the promise has come when the timer fires:
  it wins when it has settled before; otherwise the result is the timeout error. A
  promise that settles in the very millisecond of the timer counts as late.
\<close>

definition addTimeoutToPromise :: "progress \<Rightarrow> int \<Rightarrow> string \<Rightarrow> error + snapshot" where
  "addTimeoutToPromise prog timeoutMillis errorMessage =
     (case prog of
        Settled d r \<Rightarrow> if d < timer_delay timeoutMillis then r else Inl (Error errorMessage)
      | _ \<Rightarrow> Inl (Error errorMessage))"

text \<open>What the timeout leaves behind: the capture goes on, nobody waits for it.\<close>

definition abandoned :: "progress \<Rightarrow> pending option" where
  "abandoned prog = (case prog of Waiting p \<Rightarrow> Some p | _ \<Rightarrow> None)"

definition pushSnapshot :: "snapshot \<Rightarrow> server \<Rightarrow> server" where
  "pushSnapshot snap s =
     send ''snapshot'' (PSnapshot snap) (log Debug ''Sending live view snapshot'' s)"

text \<open>The third check of \<^verbatim>\<open>serve\<close>:
  \<^verbatim>\<open>this.lastSnapshot && this.lastSnapshot.age() < this.maxSnapshotFrequencyMillis\<close>.\<close>

definition too_recent :: "int \<Rightarrow> server \<Rightarrow> bool" where
  "too_recent now s =
     (case lastSnapshot s of
        Some snap \<Rightarrow> age now snap < maxSnapshotFrequencyMillis s
      | None \<Rightarrow> False)"

text \<open>
  \<^verbatim>\<open>serve(page)\<close>, called at clock reading \<open>now\<close>, with the page and the outcome
  \<^verbatim>\<open>writeFile\<close> will have. The result is what the returned promise settles with
  (\<open>Inl\<close> a rejection), the state when it settles, and the capture left running, if any.
  The \<^verbatim>\<open>try\<close> block is the run of the capture against the timer, \<^verbatim>\<open>catch\<close> the
  \<open>Inl\<close> case of its result, \<^verbatim>\<open>finally\<close> the last update of the flag. The debug
  line of the third check is logged without the number it interpolates.
\<close>

definition serve ::
  "int \<Rightarrow> page \<Rightarrow> unit settle \<Rightarrow> server \<Rightarrow> (error + unit) \<times> server \<times> pending option" where
  "serve now p w s =
     (if \<not> hasClients s then
        (Inr (), log Debug ''Live view server has no clients, skipping snapshot.'' s, None)
      else if servingSnapshot s then
        (Inr (), log Debug ''Already serving a snapshot, not starting a new one.'' s, None)
      else if too_recent now s then
        (Inr (), log Debug ''Snapshot was already served in less than the frequency.'' s, None)
      else
        (let s1 = s\<lparr>servingSnapshot := True\<rparr>;
             run = makeSnapshot_until (Some (timer_delay (snapshotTimeoutMillis s1))) now p w s1;
             s2 = snd run;
             s3 = (case addTimeoutToPromise (fst run) (snapshotTimeoutMillis s2)
                          ''LivecastServer: Serving of Live View timed out.'' of
                     Inr snap \<Rightarrow> pushSnapshot snap s2
                   | Inl err \<Rightarrow> log_exception err ''Serving of page for live view failed'' s2)
         in (Inr (), s3\<lparr>servingSnapshot := False\<rparr>, abandoned (fst run))))"

text \<open>
  The abandoned capture resumes when its awaited promise settles, whatever the server
  has done in between; what it returns is dropped.
\<close>

definition resume_abandoned :: "int \<Rightarrow> pending \<Rightarrow> server \<Rightarrow> server \<times> pending option" where
  "resume_abandoned t0 pend s =
     (let run = makeSnapshot_resume t0 pend s in (snd run, abandoned (fst run)))"

section \<open>Construction\<close>

text \<open>
  \<^verbatim>\<open>parseInt(text, 10)\<close> on an ASCII string: leading white space is skipped, then an
  optional sign, then the longest run of decimal digits; \<open>None\<close> is \<^verbatim>\<open>NaN\<close>.
\<close>

definition is_space :: "char \<Rightarrow> bool" where
  "is_space c = (c \<in> set [CHR 0x09, CHR 0x0A, CHR 0x0B, CHR 0x0C, CHR 0x0D, CHR '' ''])"

definition is_digit :: "char \<Rightarrow> bool" where
  "is_digit c = (c \<in> set ''0123456789'')"

definition digit_val :: "char \<Rightarrow> int" where
  "digit_val c = int (of_char c) - 48"

definition digits_val :: "string \<Rightarrow> int" where
  "digits_val ds = foldl (\<lambda>a c. 10 * a + digit_val c) 0 ds"

definition parseInt :: "string \<Rightarrow> int option" where
  "parseInt text =
     (let t = dropWhile is_space text;
          neg = (case t of c # _ \<Rightarrow> c = CHR ''-'' | [] \<Rightarrow> False);
          body = (case t of c # cs \<Rightarrow> if c = CHR ''-'' \<or> c = CHR ''+'' then cs else t | [] \<Rightarrow> t);
          ds = takeWhile is_digit body
      in if ds = [] then None
         else Some (if neg then - digits_val ds else digits_val ds))"

text \<open>
  The process environment and the constants of \<^verbatim>\<open>apify-shared/consts\<close> the class
  reads: \<^verbatim>\<open>process.env[ENV_VARS.CONTAINER_PORT]\<close> and its local default, the same
  for the container URL, and the default screenshot directory.
\<close>

record environment =
  env_container_port :: "string option"
  local_container_port :: string
  env_container_url :: "string option"
  local_container_url :: string
  default_screenshot_dir :: string

text \<open>\<^verbatim>\<open>a || b\<close> on an environment string: unset and empty are both falsy.\<close>

definition or_default :: "string option \<Rightarrow> string \<Rightarrow> string" where
  "or_default v d = (case v of None \<Rightarrow> d | Some x \<Rightarrow> if x = [] then d else x)"

definition valid_port :: "int option \<Rightarrow> bool" where
  "valid_port pt = (case pt of None \<Rightarrow> False | Some n \<Rightarrow> 0 \<le> n \<and> n \<le> 65535)"

text \<open>
  \<^verbatim>\<open>_setupHttpServer()\<close>. The port is stored before it is checked; the HTTP server,
  the routes and the socket server are created after the check. The error message is cut
  before the part that interpolates the environment.
\<close>

definition setupHttpServer :: "environment \<Rightarrow> server \<Rightarrow> (error + unit) \<times> server" where
  "setupHttpServer env s =
     (let containerPort = or_default (env_container_port env) (local_container_port env);
          s1 = s\<lparr>port := parseInt containerPort\<rparr>
      in if \<not> valid_port (port s1) then
           (Inl (Error ''Cannot start LivecastServer - invalid port specified''), s1)
         else
           (Inr (), s1\<lparr>liveViewUrl :=
                          Some (or_default (env_container_url env) (local_container_url env)),
                       httpServer := True, socketio := True\<rparr>))"

record options =
  opt_screenshotDirectoryPath :: "string option"
  opt_maxScreenshotFiles :: "int option"
  opt_snapshotTimeoutSecs :: "int option"
  opt_maxSnapshotFrequencySecs :: "int option"
  opt_useScreenshots :: "bool option"
  opt_promptHandlers :: "handlers option"

definition or_else :: "'a option \<Rightarrow> 'a \<Rightarrow> 'a" where
  "or_else v d = (case v of None \<Rightarrow> d | Some x \<Rightarrow> x)"

text \<open>The fields as the constructor sets them before \<^verbatim>\<open>_setupHttpServer()\<close>.\<close>

definition init_fields :: "environment \<Rightarrow> options \<Rightarrow> server" where
  "init_fields env opts =
     \<lparr>screenshotDirectoryPath =
        or_else (opt_screenshotDirectoryPath opts) (default_screenshot_dir env),
      maxScreenshotFiles = or_else (opt_maxScreenshotFiles opts) 10,
      snapshotTimeoutMillis = or_else (opt_snapshotTimeoutSecs opts) 3 * 1000,
      maxSnapshotFrequencyMillis = or_else (opt_maxSnapshotFrequencySecs opts) 2 * 1000,
      useScreenshots = or_else (opt_useScreenshots opts) False,
      promptHandlers = or_else (opt_promptHandlers opts) \<lparr>own = [], plain_object = True\<rparr>,
      lastSnapshot = None,
      lastScreenshotIndex = 0,
      clientCount = 0,
      isRunning = False,
      httpServer = False,
      socketio = False,
      port = None,
      liveViewUrl = None,
      servingSnapshot = False,
      resolveMessagePromise = None,
      trace = []\<rparr>"

text \<open>\<^verbatim>\<open>new LivecastServer(options)\<close>: an error of the setup leaves no object.\<close>

definition constructor :: "environment \<Rightarrow> options \<Rightarrow> error + server" where
  "constructor env opts =
     (case setupHttpServer env (init_fields env opts) of
        (Inl e, _) \<Rightarrow> Inl e
      | (Inr _, s) \<Rightarrow> Inr s)"


section \<open>The prompt bridge\<close>

text \<open>
  \<^verbatim>\<open>String(v)\<close>, as a property key is made from a value. An array joins its
  elements with commas, \<^verbatim>\<open>null\<close> and \<^verbatim>\<open>undefined\<close> elements as empty text. An
  object parsed from JSON gives \<^verbatim>\<open>[object Object]\<close>, unless it has an own property
  \<^verbatim>\<open>toString\<close>, which is never a function there: then the conversion throws.
\<close>

fun js_to_string :: "jsval \<Rightarrow> error + string"
  and js_join :: "jsval list \<Rightarrow> error + string" where
  "js_to_string Undefined = Inr ''undefined''"
| "js_to_string Null = Inr ''null''"
| "js_to_string (Bool b) = Inr (if b then ''true'' else ''false'')"
| "js_to_string (Num n) = Inr n"
| "js_to_string (Str v) = Inr v"
| "js_to_string (Arr xs) = js_join xs"
| "js_to_string (Obj kvs) =
     (if ''toString'' \<in> set (map fst kvs)
      then Inl (TypeError ''Cannot convert object to primitive value'')
      else Inr ''[object Object]'')"
| "js_join [] = Inr []"
| "js_join (x # xs) =
     (case (if x = Undefined \<or> x = Null then Inr [] else js_to_string x) of
        Inl e \<Rightarrow> Inl e
      | Inr a \<Rightarrow>
          (if xs = [] then Inr a
           else (case js_join xs of Inl e \<Rightarrow> Inl e | Inr b \<Rightarrow> Inr (a @ '','' @ b))))"

text \<open>
  \<^verbatim>\<open>response.action\<close>: a throw on \<^verbatim>\<open>null\<close> and \<^verbatim>\<open>undefined\<close>, the own
  property of an object, \<^verbatim>\<open>undefined\<close> everywhere else.
\<close>

definition get_action :: "jsval \<Rightarrow> error + jsval" where
  "get_action response =
     (case response of
        Undefined \<Rightarrow> Inl (TypeError ''Cannot read property action of undefined'')
      | Null \<Rightarrow> Inl (TypeError ''Cannot read property action of null'')
      | Obj kvs \<Rightarrow> (case map_of kvs ''action'' of Some v \<Rightarrow> Inr v | None \<Rightarrow> Inr Undefined)
      | _ \<Rightarrow> Inr Undefined)"

text \<open>What a name finds on \<^verbatim>\<open>Object.prototype\<close>.\<close>

definition object_prototype :: "string \<Rightarrow> property option" where
  "object_prototype k =
     (if k = ''__proto__'' then Some ProtoObject
      else if k \<in> set [''constructor'', ''hasOwnProperty'', ''isPrototypeOf'',
                        ''propertyIsEnumerable'', ''toLocaleString'', ''toString'',
                        ''valueOf'', ''__defineGetter__'', ''__defineSetter__'',
                        ''__lookupGetter__'', ''__lookupSetter__'']
      then Some (Builtin k)
      else None)"

text \<open>\<^verbatim>\<open>this.promptHandlers[key]\<close>; \<open>None\<close> is \<^verbatim>\<open>undefined\<close>.\<close>

definition get_handler :: "handlers \<Rightarrow> string \<Rightarrow> property option" where
  "get_handler h k =
     (case map_of (own h) k of
        Some v \<Rightarrow> Some v
      | None \<Rightarrow> if plain_object h then object_prototype k else None)"

fun truthy :: "jsval \<Rightarrow> bool" where
  "truthy Undefined = False"
| "truthy Null = False"
| "truthy (Bool b) = b"
| "truthy (Num n) = (n \<noteq> ''0'' \<and> n \<noteq> ''NaN'')"
| "truthy (Str v) = (v \<noteq> [])"
| "truthy (Arr _) = True"
| "truthy (Obj _) = True"

fun truthy_property :: "property option \<Rightarrow> bool" where
  "truthy_property None = False"
| "truthy_property (Some (Plain v)) = truthy v"
| "truthy_property (Some _) = True"

text \<open>
  What a call returns: a value, or whatever the named built-in function of
  \<^verbatim>\<open>Object.prototype\<close> does when called on the handlers object with the response.
\<close>

datatype result = Value jsval | Native string jsval

text \<open>\<^verbatim>\<open>handleResponse(response)\<close>.\<close>

definition handleResponse :: "jsval \<Rightarrow> server \<Rightarrow> (error + result) \<times> server" where
  "handleResponse response s =
     (case get_action response of
        Inl e \<Rightarrow> (Inl e, s)
      | Inr a \<Rightarrow>
          (case js_to_string a of
             Inl e \<Rightarrow> (Inl e, s)
           | Inr k \<Rightarrow>
               (if \<not> truthy_property (get_handler (promptHandlers s) k) then
                  (Inr (Value Undefined), log Warning ''No handler for response action'' s)
                else
                  (case get_handler (promptHandlers s) k of
                     Some (Handler f) \<Rightarrow>
                       (map_sum id Value (f response), s\<lparr>trace := trace s @ [Call k response]\<rparr>)
                   | Some (Builtin n) \<Rightarrow>
                       (Inr (Native n response), s\<lparr>trace := trace s @ [Call k response]\<rparr>)
                   | _ \<Rightarrow>
                       (Inl (TypeError ''this.promptHandlers[response.action] is not a function''),
                        s)))))"

text \<open>
  \<^verbatim>\<open>prompt(options)\<close> up to its await: the resolve function of a new promise is
  stored, the prompt is sent, and the \<^verbatim>\<open>then\<close> callback logs.
\<close>

definition prompt_start :: "jsval \<Rightarrow> server \<Rightarrow> server" where
  "prompt_start opts s =
     log Debug ''Waiting for frontend prompt response''
       (send ''prompt'' (PData opts) (s\<lparr>resolveMessagePromise := Some Unsettled\<rparr>))"

text \<open>
  The handler of the socket event \<^verbatim>\<open>promptAnswer\<close>. \<open>parsed\<close> is what
  \<^verbatim>\<open>JSON.parse(`${data}`)\<close> does on this payload: \<open>None\<close> when it throws. Without a
  stored resolve function the call \<^verbatim>\<open>this.resolveMessagePromise(data)\<close> throws.
\<close>

definition socket_promptAnswer ::
  "jsval \<Rightarrow> jsval option \<Rightarrow> server \<Rightarrow> (error + unit) \<times> server" where
  "socket_promptAnswer data parsed s =
     (let s1 = log Debug ''promptAnswer'' s;
          s2 = (case parsed of
                  Some _ \<Rightarrow> s1
                | None \<Rightarrow> log Debug ''Failed to parse incoming message data'' s1);
          v = (case parsed of Some v \<Rightarrow> v | None \<Rightarrow> data)
      in (case resolveMessagePromise s2 of
            None \<Rightarrow> (Inl (TypeError ''this.resolveMessagePromise is not a function''), s2)
          | Some Unsettled \<Rightarrow>
              (Inr (), s2\<lparr>resolveMessagePromise := Some (Fulfilled v),
                          trace := trace s2 @ [Resolve v]\<rparr>)
          | Some (Fulfilled _) \<Rightarrow> (Inr (), s2)))"

text \<open>
  \<^verbatim>\<open>prompt\<close> after its await. While the promise is unsettled the call stays
  suspended (\<open>None\<close>). Afterwards the body has no \<^verbatim>\<open>return\<close>: the call ends with
  \<^verbatim>\<open>undefined\<close>, or with what \<^verbatim>\<open>handleResponse\<close> throws.
\<close>

definition prompt_resume :: "server \<Rightarrow> (error + jsval) option \<times> server" where
  "prompt_resume s =
     (case resolveMessagePromise s of
        Some (Fulfilled response) \<Rightarrow>
          (let r = handleResponse response (log Debug ''Response data.'' s)
           in (Some (case fst r of Inl e \<Rightarrow> Inl e | Inr _ \<Rightarrow> Inr Undefined), snd r))
      | _ \<Rightarrow> (None, s))"

text \<open>One prompt and the answer to it, with nothing in between.\<close>

definition prompt :: "jsval \<Rightarrow> jsval \<Rightarrow> jsval option \<Rightarrow> server \<Rightarrow> (error + jsval) option \<times> server" where
  "prompt opts data parsed s =
     prompt_resume (snd (socket_promptAnswer data parsed (prompt_start opts s)))"

section \<open>The connection registry\<close>

definition socket_connect :: "server \<Rightarrow> server" where
  "socket_connect s = log Info ''Live view client connected'' (s\<lparr>clientCount := clientCount s + 1\<rparr>)"

definition socket_disconnect :: "server \<Rightarrow> server" where
  "socket_disconnect s =
     log Info ''Live view client disconnected'' (s\<lparr>clientCount := clientCount s - 1\<rparr>)"

definition socket_getLastSnapshot :: "server \<Rightarrow> server" where
  "socket_getLastSnapshot s =
     (case lastSnapshot s of
        Some snap \<Rightarrow> send ''snapshot'' (PSnapshot snap) (log Debug ''Sending live view snapshot'' s)
      | None \<Rightarrow> s)"


section \<open>Runs of captures and what they leave on disk\<close>

text \<open>Consecutive runs of the capture procedure, each to its end before the next.\<close>

fun capture_all :: "(int \<times> page \<times> unit settle) list \<Rightarrow> server \<Rightarrow> progress list \<times> server" where
  "capture_all [] s = ([], s)"
| "capture_all ((t0, p, w) # cs) s =
     (let r = makeSnapshot t0 p w s; rs = capture_all cs (snd r)
      in (fst r # fst rs, snd rs))"

fun snapshot_of :: "progress \<Rightarrow> snapshot option" where
  "snapshot_of (Settled d (Inr snap)) = Some snap"
| "snapshot_of _ = None"

definition index_of :: "progress \<Rightarrow> int option" where
  "index_of r = (case snapshot_of r of None \<Rightarrow> None | Some snap \<Rightarrow> screenshotIndex snap)"

fun written :: "effect list \<Rightarrow> path list" where
  "written [] = []"
| "written (WriteFile f # es) = f # written es"
| "written (_ # es) = written es"

fun unlinked :: "effect list \<Rightarrow> path list" where
  "unlinked [] = []"
| "unlinked (Unlink f # es) = f # unlinked es"
| "unlinked (_ # es) = unlinked es"

fun emitted :: "effect list \<Rightarrow> (string \<times> payload) list" where
  "emitted [] = []"
| "emitted (Emit m d # es) = (m, d) # emitted es"
| "emitted (_ # es) = emitted es"

text \<open>The artifacts left once every requested unlink has been carried out.\<close>

definition remaining :: "effect list \<Rightarrow> path list" where
  "remaining tr = filter (\<lambda>f. f \<notin> set (unlinked tr)) (written tr)"

definition artifact :: "server \<Rightarrow> int \<Rightarrow> path" where
  "artifact s i = (screenshotDirectoryPath s, Some i)"

text \<open>What a run of the capture procedure has done to the last snapshot.\<close>

definition captured :: "nat option \<Rightarrow> int \<Rightarrow> server \<Rightarrow> progress \<times> server \<Rightarrow> bool" where
  "captured l t0 s ps =
     ((\<exists>d snap. fst ps = Settled d (Inr snap) \<and> in_time l d
          \<and> lastSnapshot (snd ps) = Some snap \<and> createdAt snap = t0 + int d)
      \<or> ((\<forall>d snap. fst ps \<noteq> Settled d (Inr snap)) \<and> lastSnapshot (snd ps) = lastSnapshot s))"

section \<open>Examples\<close>

definition example_env :: environment where
  "example_env =
     \<lparr>env_container_port = None, local_container_port = ''4321'',
      env_container_url = None, local_container_url = ''http://localhost:4321'',
      default_screenshot_dir = ''live_view''\<rparr>"

definition default_options :: options where
  "default_options =
     \<lparr>opt_screenshotDirectoryPath = None, opt_maxScreenshotFiles = None,
      opt_snapshotTimeoutSecs = None, opt_maxSnapshotFrequencySecs = None,
      opt_useScreenshots = None, opt_promptHandlers = None\<rparr>"

definition screenshot_options :: options where
  "screenshot_options =
     default_options\<lparr>opt_maxScreenshotFiles := Some 2, opt_useScreenshots := Some True\<rparr>"

text \<open>A page whose markup and screenshot arrive after \<open>d\<close> milliseconds.\<close>

definition page_after :: "nat \<Rightarrow> page" where
  "page_after d =
     \<lparr>page_url = Inr ''https://www.example.com'', page_content = Resolves d ''<html>'',
      page_screenshot = Resolves d [255, 216]\<rparr>"

definition example_snapshot :: snapshot where
  "example_snapshot = new_Snapshot 0 ''https://www.example.com'' ''<html>'' None"

text \<open>A server with one client that has served a snapshot at time 0.\<close>

definition watched_server :: server where
  "watched_server =
     (init_fields example_env default_options)
       \<lparr>lastSnapshot := Some example_snapshot, clientCount := 1\<rparr>"

text \<open>
  A server just constructed; the same while a capture is in flight; and a server that
  has served a snapshot and lost its last client.
\<close>

definition fresh_server :: server where
  "fresh_server = init_fields example_env default_options"

definition busy_server :: server where
  "busy_server = fresh_server\<lparr>servingSnapshot := True\<rparr>"

definition unwatched_server :: server where
  "unwatched_server = watched_server\<lparr>clientCount := 0\<rparr>"

text \<open>A page whose markup cannot be read.\<close>

definition failing_page :: page where
  "failing_page =
     \<lparr>page_url = Inr ''https://www.example.com'',
      page_content = Rejects 10 (Error ''Navigation failed''),
      page_screenshot = Resolves 300 [255, 216]\<rparr>"

text \<open>The screenshot indices of the snapshots a list of runs has produced.\<close>

fun indices :: "progress list \<Rightarrow> int list" where
  "indices [] = []"
| "indices (r # rs) = (case index_of r of Some i \<Rightarrow> i # indices rs | None \<Rightarrow> indices rs)"

text \<open>
  A server constructed with screenshots on and two retained files, and three captures
  that succeed.
\<close>

definition screenshot_server :: server where
  "screenshot_server =
     (init_fields example_env screenshot_options)
       \<lparr>httpServer := True, socketio := True, port := Some 4321,
        liveViewUrl := Some ''http://localhost:4321''\<rparr>"

definition three_captures :: "(int \<times> page \<times> unit settle) list" where
  "three_captures =
     [(0, page_after 300, Resolves 5 ()), (2100, page_after 300, Resolves 5 ()),
      (4200, page_after 300, Resolves 5 ())]"

text \<open>A server with one registered prompt handler, for the action \<^verbatim>\<open>ok\<close>.\<close>

definition ok_server :: server where
  "ok_server =
     fresh_server\<lparr>promptHandlers :=
        \<lparr>own = [(''ok'', Handler (\<lambda>r. Inr (Str ''done'')))], plain_object = True\<rparr>\<rparr>"

text \<open>Environments whose container port is out of range, and not a number.\<close>

definition bad_port_env :: environment where
  "bad_port_env = example_env\<lparr>env_container_port := Some ''70000''\<rparr>"

definition nan_port_env :: environment where
  "nan_port_env = example_env\<lparr>env_container_port := Some ''http''\<rparr>"

section \<open>The capture procedure: what it leaves alone\<close>

lemma serve_skip:
  "\<not> hasClients s \<or> servingSnapshot s \<or> too_recent now s \<Longrightarrow>
   \<exists>m. serve now p w s = (Inr (), log Debug m s, None)"
  by (auto simp: serve_def)

lemma finish_fields [simp]:
  "servingSnapshot (snd (makeSnapshot_finish now d url html idx s)) = servingSnapshot s"
  "clientCount (snd (makeSnapshot_finish now d url html idx s)) = clientCount s"
  "lastScreenshotIndex (snd (makeSnapshot_finish now d url html idx s)) = lastScreenshotIndex s"
  "trace (snd (makeSnapshot_finish now d url html idx s)) = trace s"
  "snapshotTimeoutMillis (snd (makeSnapshot_finish now d url html idx s)) = snapshotTimeoutMillis s"
  "maxScreenshotFiles (snd (makeSnapshot_finish now d url html idx s)) = maxScreenshotFiles s"
  "useScreenshots (snd (makeSnapshot_finish now d url html idx s)) = useScreenshots s"
  "screenshotDirectoryPath (snd (makeSnapshot_finish now d url html idx s)) = screenshotDirectoryPath s"
  by (simp_all add: makeSnapshot_finish_def Let_def)

lemma resume_fields [simp]:
  "servingSnapshot (snd (makeSnapshot_resume t0 pend s)) = servingSnapshot s"
  "clientCount (snd (makeSnapshot_resume t0 pend s)) = clientCount s"
  "snapshotTimeoutMillis (snd (makeSnapshot_resume t0 pend s)) = snapshotTimeoutMillis s"
  "maxScreenshotFiles (snd (makeSnapshot_resume t0 pend s)) = maxScreenshotFiles s"
  "useScreenshots (snd (makeSnapshot_resume t0 pend s)) = useScreenshots s"
  "screenshotDirectoryPath (snd (makeSnapshot_resume t0 pend s)) = screenshotDirectoryPath s"
  by (cases pend; simp add: Let_def deleteScreenshot_def split: option.splits settle.splits)+

lemma start_fields [simp]:
  "servingSnapshot (snd (makeSnapshot_start p w s)) = servingSnapshot s"
  "clientCount (snd (makeSnapshot_start p w s)) = clientCount s"
  "lastSnapshot (snd (makeSnapshot_start p w s)) = lastSnapshot s"
  "lastScreenshotIndex (snd (makeSnapshot_start p w s)) = lastScreenshotIndex s"
  "snapshotTimeoutMillis (snd (makeSnapshot_start p w s)) = snapshotTimeoutMillis s"
  "maxScreenshotFiles (snd (makeSnapshot_start p w s)) = maxScreenshotFiles s"
  "useScreenshots (snd (makeSnapshot_start p w s)) = useScreenshots s"
  "screenshotDirectoryPath (snd (makeSnapshot_start p w s)) = screenshotDirectoryPath s"
  by (simp_all add: makeSnapshot_start_def log_def Let_def
        split: sum.splits settle.splits prod.splits)

lemma advance_fields [simp]:
  "servingSnapshot (snd (advance l t0 ps)) = servingSnapshot (snd ps)"
  "clientCount (snd (advance l t0 ps)) = clientCount (snd ps)"
  "snapshotTimeoutMillis (snd (advance l t0 ps)) = snapshotTimeoutMillis (snd ps)"
  "maxScreenshotFiles (snd (advance l t0 ps)) = maxScreenshotFiles (snd ps)"
  "useScreenshots (snd (advance l t0 ps)) = useScreenshots (snd ps)"
  "screenshotDirectoryPath (snd (advance l t0 ps)) = screenshotDirectoryPath (snd ps)"
  by (simp_all add: advance_def split: progress.splits)

lemma until_fields [simp]:
  "servingSnapshot (snd (makeSnapshot_until l t0 p w s)) = servingSnapshot s"
  "clientCount (snd (makeSnapshot_until l t0 p w s)) = clientCount s"
  "snapshotTimeoutMillis (snd (makeSnapshot_until l t0 p w s)) = snapshotTimeoutMillis s"
  "maxScreenshotFiles (snd (makeSnapshot_until l t0 p w s)) = maxScreenshotFiles s"
  "useScreenshots (snd (makeSnapshot_until l t0 p w s)) = useScreenshots s"
  "screenshotDirectoryPath (snd (makeSnapshot_until l t0 p w s)) = screenshotDirectoryPath s"
  by (simp_all add: makeSnapshot_until_def)

lemma makeSnapshot_config [simp]:
  "useScreenshots (snd (makeSnapshot t0 p w s)) = useScreenshots s"
  "maxScreenshotFiles (snd (makeSnapshot t0 p w s)) = maxScreenshotFiles s"
  "screenshotDirectoryPath (snd (makeSnapshot t0 p w s)) = screenshotDirectoryPath s"
  by (simp_all add: makeSnapshot_def)

section \<open>The capture procedure: when the last snapshot changes\<close>

lemma resume_cases:
  "(\<exists>snap. fst (makeSnapshot_resume t0 pend s) = Settled (due pend) (Inr snap)
       \<and> lastSnapshot (snd (makeSnapshot_resume t0 pend s)) = Some snap
       \<and> createdAt snap = t0 + int (due pend))
   \<or> ((\<forall>d snap. fst (makeSnapshot_resume t0 pend s) \<noteq> Settled d (Inr snap))
       \<and> lastSnapshot (snd (makeSnapshot_resume t0 pend s)) = lastSnapshot s)"
  by (cases pend)
     (auto simp: Let_def makeSnapshot_finish_def new_Snapshot_def deleteScreenshot_def
           split: option.splits settle.splits)

lemma captured_start: "captured l t0 s (makeSnapshot_start p w s)"
  by (auto simp: captured_def makeSnapshot_start_def log_def Let_def
        split: sum.splits settle.splits)

lemma captured_advance:
  assumes "captured l t0 s ps"
  shows "captured l t0 s (advance l t0 ps)"
proof (cases "fst ps")
  case (Waiting pend)
  show ?thesis
  proof (cases "in_time l (due pend)")
    case True
    from assms Waiting have last: "lastSnapshot (snd ps) = lastSnapshot s"
      by (auto simp: captured_def)
    have adv: "advance l t0 ps = makeSnapshot_resume t0 pend (snd ps)"
      using Waiting True by (simp add: advance_def)
    from resume_cases [of t0 pend "snd ps"] True last show ?thesis
      unfolding adv captured_def by metis
  next
    case False
    with Waiting assms show ?thesis by (simp add: advance_def)
  qed
qed (use assms in \<open>simp_all add: advance_def\<close>)

lemma captured_until: "captured l t0 s (makeSnapshot_until l t0 p w s)"
  unfolding makeSnapshot_until_def
  by (intro captured_advance captured_start)

lemma serve_admitted:
  assumes "hasClients s" "\<not> servingSnapshot s" "\<not> too_recent now s"
  shows "serve now p w s =
     (let run = makeSnapshot_until (Some (timer_delay (snapshotTimeoutMillis s))) now p w
                  (s\<lparr>servingSnapshot := True\<rparr>)
      in (Inr (),
          (case addTimeoutToPromise (fst run) (snapshotTimeoutMillis s)
                  ''LivecastServer: Serving of Live View timed out.'' of
             Inr snap \<Rightarrow> pushSnapshot snap (snd run)
           | Inl err \<Rightarrow> log_exception err ''Serving of page for live view failed'' (snd run))
          \<lparr>servingSnapshot := False\<rparr>,
          abandoned (fst run)))"
  using assms by (simp add: serve_def Let_def cong: sum.case_cong)

lemma push_last [simp]: "lastSnapshot (pushSnapshot snap s) = lastSnapshot s"
  by (simp add: pushSnapshot_def send_def log_def)

lemma log_exception_last [simp]: "lastSnapshot (log_exception e m s) = lastSnapshot s"
  by (simp add: log_exception_def)


section \<open>Throttling\<close>


lemmas model_defs =
  serve_def hasClients_def too_recent_def age_def log_def log_exception_def send_def
  pushSnapshot_def makeSnapshot_until_def makeSnapshot_start_def advance_def in_time_def
  gather_def makeSnapshot_finish_def new_Snapshot_def deleteScreenshot_def
  getScreenshotPath_def to_number_def timer_delay_def addTimeoutToPromise_def abandoned_def
  init_fields_def or_else_def example_env_def default_options_def screenshot_options_def
  page_after_def example_snapshot_def watched_server_def Let_def


section \<open>Traces\<close>

lemma written_append [simp]: "written (xs @ ys) = written xs @ written ys"
  by (induction xs rule: written.induct) auto

lemma unlinked_append [simp]: "unlinked (xs @ ys) = unlinked xs @ unlinked ys"
  by (induction xs rule: unlinked.induct) auto

lemma emitted_append [simp]: "emitted (xs @ ys) = emitted xs @ emitted ys"
  by (induction xs rule: emitted.induct) auto

lemma resume_trace: "\<exists>xs. trace (snd (makeSnapshot_resume t0 pend s)) = trace s @ xs"
  by (cases pend)
     (auto simp: Let_def makeSnapshot_finish_def deleteScreenshot_def
           split: option.splits settle.splits)

lemma advance_trace: "\<exists>xs. trace (snd (advance l t0 ps)) = trace (snd ps) @ xs"
  using resume_trace by (auto simp: advance_def split: progress.splits)

lemma until_trace:
  "\<exists>xs. trace (snd (makeSnapshot_until l t0 p w s)) = trace (snd (makeSnapshot_start p w s)) @ xs"
proof -
  let ?a = "makeSnapshot_start p w s"
  obtain xs where xs: "trace (snd (advance l t0 ?a)) = trace (snd ?a) @ xs"
    using advance_trace by blast
  obtain ys where "trace (snd (advance l t0 (advance l t0 ?a))) = trace (snd (advance l t0 ?a)) @ ys"
    using advance_trace by blast
  with xs show ?thesis by (simp add: makeSnapshot_until_def)
qed

lemma start_trace_url:
  "page_url p = Inr url \<Longrightarrow>
   trace (snd (makeSnapshot_start p w s)) = trace s @ [Log Info ''Making live view snapshot.'']"
  by (simp add: makeSnapshot_start_def log_def Let_def split: settle.splits prod.splits)

lemmas example_defs =
  model_defs fresh_server_def busy_server_def unwatched_server_def failing_page_def

section \<open>The observation predicate\<close>

text \<open>
  C5. \<^verbatim>\<open>hasClients()\<close> is true exactly when the client count is above zero or no
  snapshot has been made yet. So with no client and no snapshot, \<^verbatim>\<open>serve\<close> passes the
  first check: an idle server starts the capture (the page is read, which the trace shows
  by the line logged after \<^verbatim>\<open>page.url()\<close>), a busy one leaves at the second check.
  With no client and a previous snapshot, \<^verbatim>\<open>serve\<close> leaves at the first check.
\<close>

theorem hasClients_bootstrap:
  "(hasClients s \<longleftrightarrow> 0 < clientCount s \<or> lastSnapshot s = None)
   \<and> (clientCount s = 0 \<and> lastSnapshot s = None \<and> \<not> servingSnapshot s \<and> page_url p = Inr url \<longrightarrow>
        (\<exists>rest. trace (fst (snd (serve now p w s)))
                  = trace s @ Log Info ''Making live view snapshot.'' # rest))
   \<and> (clientCount s = 0 \<and> lastSnapshot s = None \<and> servingSnapshot s \<longrightarrow>
        serve now p w s
          = (Inr (), log Debug ''Already serving a snapshot, not starting a new one.'' s, None))
   \<and> (clientCount s = 0 \<and> lastSnapshot s \<noteq> None \<longrightarrow>
        serve now p w s
          = (Inr (), log Debug ''Live view server has no clients, skipping snapshot.'' s, None))"
proof (intro conjI impI)
  show "hasClients s \<longleftrightarrow> 0 < clientCount s \<or> lastSnapshot s = None"
    by (simp add: hasClients_def split: option.splits)
next
  assume a: "clientCount s = 0 \<and> lastSnapshot s = None \<and> \<not> servingSnapshot s \<and> page_url p = Inr url"
  let ?s1 = "s\<lparr>servingSnapshot := True\<rparr>"
  let ?run = "makeSnapshot_until (Some (timer_delay (snapshotTimeoutMillis s))) now p w ?s1"
  from a have adm: "hasClients s" "\<not> servingSnapshot s" "\<not> too_recent now s"
    by (simp_all add: hasClients_def too_recent_def)
  from a have "trace (snd (makeSnapshot_start p w ?s1)) = trace s @ [Log Info ''Making live view snapshot.'']"
    by (simp add: start_trace_url)
  with until_trace [of "Some (timer_delay (snapshotTimeoutMillis s))" now p w ?s1]
  obtain xs where xs: "trace (snd ?run) = trace s @ Log Info ''Making live view snapshot.'' # xs"
    by auto
  have "\<exists>ys. trace (fst (snd (serve now p w s))) = trace (snd ?run) @ ys"
    by (simp add: serve_admitted [OF adm] Let_def pushSnapshot_def send_def log_def
          log_exception_def split: sum.splits)
  with xs show "\<exists>rest. trace (fst (snd (serve now p w s)))
                  = trace s @ Log Info ''Making live view snapshot.'' # rest"
    by auto
next
  assume "clientCount s = 0 \<and> lastSnapshot s = None \<and> servingSnapshot s"
  then show "serve now p w s
          = (Inr (), log Debug ''Already serving a snapshot, not starting a new one.'' s, None)"
    by (simp add: serve_def hasClients_def)
next
  assume "clientCount s = 0 \<and> lastSnapshot s \<noteq> None"
  then show "serve now p w s
          = (Inr (), log Debug ''Live view server has no clients, skipping snapshot.'' s, None)"
    by (auto simp: serve_def hasClients_def)
qed

theorem hasClients_bootstrap_witness:
  "(clientCount fresh_server = 0 \<and> lastSnapshot fresh_server = None
      \<and> \<not> servingSnapshot fresh_server
      \<and> page_url (page_after 40) = Inr ''https://www.example.com'')
   \<and> (\<exists>rest. trace (fst (snd (serve 0 (page_after 40) Hangs fresh_server)))
                = trace fresh_server @ Log Info ''Making live view snapshot.'' # rest)
   \<and> (clientCount busy_server = 0 \<and> lastSnapshot busy_server = None
      \<and> servingSnapshot busy_server)
   \<and> serve 0 (page_after 40) Hangs busy_server
       = (Inr (), log Debug ''Already serving a snapshot, not starting a new one.'' busy_server,
          None)
   \<and> (clientCount unwatched_server = 0 \<and> lastSnapshot unwatched_server \<noteq> None)
   \<and> serve 5000 (page_after 40) Hangs unwatched_server
       = (Inr (),
          log Debug ''Live view server has no clients, skipping snapshot.'' unwatched_server,
          None)"
proof -
  have h1: "clientCount fresh_server = 0 \<and> lastSnapshot fresh_server = None
      \<and> \<not> servingSnapshot fresh_server
      \<and> page_url (page_after 40) = Inr ''https://www.example.com''"
    by (simp add: example_defs)
  have h2: "clientCount busy_server = 0 \<and> lastSnapshot busy_server = None
      \<and> servingSnapshot busy_server"
    by (simp add: example_defs)
  have h3: "clientCount unwatched_server = 0 \<and> lastSnapshot unwatched_server \<noteq> None"
    by (simp add: example_defs)
  note c1 = hasClients_bootstrap [THEN conjunct2, THEN conjunct1, THEN mp, OF h1]
  note c2 = hasClients_bootstrap
              [THEN conjunct2, THEN conjunct2, THEN conjunct1, THEN mp, OF h2]
  note c3 = hasClients_bootstrap
              [THEN conjunct2, THEN conjunct2, THEN conjunct2, THEN mp, OF h3]
  show ?thesis
    by (intro conjI h1 [THEN conjunct1] h1 [THEN conjunct2, THEN conjunct1]
          h1 [THEN conjunct2, THEN conjunct2, THEN conjunct1]
          h1 [THEN conjunct2, THEN conjunct2, THEN conjunct2]
          h2 [THEN conjunct1] h2 [THEN conjunct2, THEN conjunct1]
          h2 [THEN conjunct2, THEN conjunct2]
          h3 [THEN conjunct1] h3 [THEN conjunct2] c1 c2 c3)
qed

section \<open>The skips of serve\<close>

text \<open>
  C10. When \<^verbatim>\<open>serve\<close> leaves at one of its three checks (no client, a capture in
  flight, the last snapshot too recent), the state is the old one but for one debug line
  in the log: \<^verbatim>\<open>lastSnapshot\<close>, \<^verbatim>\<open>lastScreenshotIndex\<close>, \<^verbatim>\<open>servingSnapshot\<close>
  and \<^verbatim>\<open>clientCount\<close> are unchanged, no file is written, no unlink requested, no
  event emitted, and no capture is left running.
\<close>

theorem serve_skip_frame:
  "\<not> hasClients s \<or> servingSnapshot s \<or> too_recent now s \<longrightarrow>
     (\<exists>m. fst (snd (serve now p w s)) = s\<lparr>trace := trace s @ [Log Debug m]\<rparr>)
     \<and> lastSnapshot (fst (snd (serve now p w s))) = lastSnapshot s
     \<and> lastScreenshotIndex (fst (snd (serve now p w s))) = lastScreenshotIndex s
     \<and> servingSnapshot (fst (snd (serve now p w s))) = servingSnapshot s
     \<and> clientCount (fst (snd (serve now p w s))) = clientCount s
     \<and> written (trace (fst (snd (serve now p w s)))) = written (trace s)
     \<and> unlinked (trace (fst (snd (serve now p w s)))) = unlinked (trace s)
     \<and> emitted (trace (fst (snd (serve now p w s)))) = emitted (trace s)
     \<and> snd (snd (serve now p w s)) = None"
proof
  assume "\<not> hasClients s \<or> servingSnapshot s \<or> too_recent now s"
  then obtain m where m: "serve now p w s = (Inr (), log Debug m s, None)"
    using serve_skip by blast
  have st: "fst (snd (serve now p w s)) = s\<lparr>trace := trace s @ [Log Debug m]\<rparr>"
    by (simp add: m log_def)
  show "(\<exists>m. fst (snd (serve now p w s)) = s\<lparr>trace := trace s @ [Log Debug m]\<rparr>)
     \<and> lastSnapshot (fst (snd (serve now p w s))) = lastSnapshot s
     \<and> lastScreenshotIndex (fst (snd (serve now p w s))) = lastScreenshotIndex s
     \<and> servingSnapshot (fst (snd (serve now p w s))) = servingSnapshot s
     \<and> clientCount (fst (snd (serve now p w s))) = clientCount s
     \<and> written (trace (fst (snd (serve now p w s)))) = written (trace s)
     \<and> unlinked (trace (fst (snd (serve now p w s)))) = unlinked (trace s)
     \<and> emitted (trace (fst (snd (serve now p w s)))) = emitted (trace s)
     \<and> snd (snd (serve now p w s)) = None"
    unfolding st by (simp add: m) blast
qed

theorem serve_skip_frame_witness:
  "\<not> hasClients unwatched_server \<and> servingSnapshot busy_server \<and> too_recent 500 watched_server
   \<and> fst (snd (serve 500 (page_after 40) Hangs unwatched_server))
       = unwatched_server\<lparr>trace := trace unwatched_server
            @ [Log Debug ''Live view server has no clients, skipping snapshot.'']\<rparr>
   \<and> fst (snd (serve 500 (page_after 40) Hangs busy_server))
       = busy_server\<lparr>trace := trace busy_server
            @ [Log Debug ''Already serving a snapshot, not starting a new one.'']\<rparr>
   \<and> fst (snd (serve 500 (page_after 40) Hangs watched_server))
       = watched_server\<lparr>trace := trace watched_server
            @ [Log Debug ''Snapshot was already served in less than the frequency.'']\<rparr>
   \<and> emitted (trace (fst (snd (serve 500 (page_after 40) Hangs unwatched_server))))
       = emitted (trace unwatched_server)
   \<and> snd (snd (serve 500 (page_after 40) Hangs busy_server)) = None
   \<and> lastSnapshot (fst (snd (serve 500 (page_after 40) Hangs watched_server)))
       = lastSnapshot watched_server"
proof -
  have h: "\<not> hasClients unwatched_server" "servingSnapshot busy_server"
      "too_recent 500 watched_server"
    by (simp_all add: example_defs)
  have e: "fst (snd (serve 500 (page_after 40) Hangs unwatched_server))
       = unwatched_server\<lparr>trace := trace unwatched_server
            @ [Log Debug ''Live view server has no clients, skipping snapshot.'']\<rparr>"
      "fst (snd (serve 500 (page_after 40) Hangs busy_server))
       = busy_server\<lparr>trace := trace busy_server
            @ [Log Debug ''Already serving a snapshot, not starting a new one.'']\<rparr>"
      "fst (snd (serve 500 (page_after 40) Hangs watched_server))
       = watched_server\<lparr>trace := trace watched_server
            @ [Log Debug ''Snapshot was already served in less than the frequency.'']\<rparr>"
    by (simp_all add: example_defs)
  from serve_skip_frame [of unwatched_server 500 "page_after 40" Hangs]
       serve_skip_frame [of busy_server 500 "page_after 40" Hangs]
       serve_skip_frame [of watched_server 500 "page_after 40" Hangs]
       h e
  show ?thesis by blast
qed

section \<open>Failures of the capture\<close>



section \<open>Screenshot indices and retention\<close>

lemma map_settle_Some [simp]:
  "map_settle Some x = Resolves b y \<longleftrightarrow> (\<exists>z. x = Resolves b z \<and> y = Some z)"
  by (cases x) auto

lemma makeSnapshot_success:
  assumes "useScreenshots s" "snapshot_of (fst (makeSnapshot t0 p w s)) = Some snap"
  shows "screenshotIndex snap = Some (lastScreenshotIndex s)
     \<and> lastScreenshotIndex (snd (makeSnapshot t0 p w s)) = lastScreenshotIndex s + 1
     \<and> trace (snd (makeSnapshot t0 p w s)) =
         trace s @ [Log Info ''Making live view snapshot.'',
                    WriteFile (artifact s (lastScreenshotIndex s))]
           @ (if lastScreenshotIndex s > maxScreenshotFiles s - 1
              then [Unlink (artifact s (lastScreenshotIndex s - maxScreenshotFiles s))]
              else [])"
  using assms
  by (auto simp: makeSnapshot_def makeSnapshot_until_def makeSnapshot_start_def advance_def
        in_time_def gather_def log_def Let_def makeSnapshot_finish_def new_Snapshot_def
        deleteScreenshot_def getScreenshotPath_def to_number_def artifact_def
      split: sum.splits settle.splits option.splits prod.splits if_splits
      elim!: promise_all.elims)

lemma makeSnapshot_index_step:
  assumes "useScreenshots s"
  shows "(index_of (fst (makeSnapshot t0 p w s)) = Some (lastScreenshotIndex s)
          \<and> lastScreenshotIndex (snd (makeSnapshot t0 p w s)) = lastScreenshotIndex s + 1)
       \<or> (index_of (fst (makeSnapshot t0 p w s)) = None
          \<and> lastScreenshotIndex s \<le> lastScreenshotIndex (snd (makeSnapshot t0 p w s))
          \<and> lastScreenshotIndex (snd (makeSnapshot t0 p w s)) \<le> lastScreenshotIndex s + 1)"
  using assms
  by (auto simp: makeSnapshot_def makeSnapshot_until_def makeSnapshot_start_def advance_def
        in_time_def gather_def log_def Let_def makeSnapshot_finish_def new_Snapshot_def
        deleteScreenshot_def getScreenshotPath_def to_number_def index_of_def
      split: sum.splits settle.splits option.splits prod.splits if_splits
      elim!: promise_all.elims)

lemma capture_all_indices:
  assumes "useScreenshots s"
  shows "sorted_wrt (<) (indices (fst (capture_all cs s)))
     \<and> (\<forall>i \<in> set (indices (fst (capture_all cs s))).
           lastScreenshotIndex s \<le> i \<and> i < lastScreenshotIndex (snd (capture_all cs s)))
     \<and> lastScreenshotIndex s \<le> lastScreenshotIndex (snd (capture_all cs s))"
  using assms
proof (induction cs arbitrary: s)
  case Nil
  then show ?case by simp
next
  case (Cons c cs)
  obtain t0 p w where c: "c = (t0, p, w)" by (cases c)
  let ?r = "makeSnapshot t0 p w s"
  have us: "useScreenshots (snd ?r)" using Cons.prems by simp
  note ih = Cons.IH [OF us]
  note one = makeSnapshot_index_step [OF Cons.prems, of t0 p w]
  from one show ?case
  proof
    assume a: "index_of (fst ?r) = Some (lastScreenshotIndex s)
          \<and> lastScreenshotIndex (snd ?r) = lastScreenshotIndex s + 1"
    with ih show ?thesis by (fastforce simp: c Let_def)
  next
    assume a: "index_of (fst ?r) = None
          \<and> lastScreenshotIndex s \<le> lastScreenshotIndex (snd ?r)
          \<and> lastScreenshotIndex (snd ?r) \<le> lastScreenshotIndex s + 1"
    with ih show ?thesis by (fastforce simp: c Let_def)
  qed
qed

lemma capture_all_success:
  assumes "useScreenshots s" "\<forall>r \<in> set (fst (capture_all cs s)). snapshot_of r \<noteq> None"
  shows "indices (fst (capture_all cs s)) =
           [lastScreenshotIndex s .. lastScreenshotIndex s + int (length cs) - 1]
     \<and> lastScreenshotIndex (snd (capture_all cs s)) = lastScreenshotIndex s + int (length cs)
     \<and> written (trace (snd (capture_all cs s))) =
         written (trace s)
           @ map (artifact s) [lastScreenshotIndex s .. lastScreenshotIndex s + int (length cs) - 1]
     \<and> unlinked (trace (snd (capture_all cs s))) =
         unlinked (trace s)
           @ map (\<lambda>i. artifact s (i - maxScreenshotFiles s))
               (filter (\<lambda>i. maxScreenshotFiles s - 1 < i)
                  [lastScreenshotIndex s .. lastScreenshotIndex s + int (length cs) - 1])"
  using assms
proof (induction cs arbitrary: s)
  case Nil
  then show ?case by simp
next
  case (Cons c cs)
  obtain t0 p w where c: "c = (t0, p, w)" by (cases c)
  let ?r = "makeSnapshot t0 p w s"
  from Cons.prems(2) obtain snap where snap: "snapshot_of (fst ?r) = Some snap"
    by (auto simp: c Let_def)
  note one = makeSnapshot_success [OF Cons.prems(1) snap]
  have rest: "\<forall>r \<in> set (fst (capture_all cs (snd ?r))). snapshot_of r \<noteq> None"
    using Cons.prems(2) by (simp add: c Let_def)
  have us: "useScreenshots (snd ?r)" using Cons.prems(1) by simp
  note ih = Cons.IH [OF us rest]
  have up: "[lastScreenshotIndex s .. lastScreenshotIndex s + int (length (c # cs)) - 1]
      = lastScreenshotIndex s
          # [lastScreenshotIndex s + 1 .. lastScreenshotIndex s + 1 + int (length cs) - 1]"
    by (subst upto_rec1) (simp_all add: algebra_simps)
  show ?case
    unfolding up using ih one snap
    by (simp add: c Let_def artifact_def index_of_def algebra_simps)
qed

lemma filter_upto_ge: "filter (\<lambda>i. k - 1 < i) [a..b] = [max a k .. b]"
proof (induction a b rule: upto.induct)
  case (1 i j)
  show ?case
  proof (cases "i \<le> j")
    case True
    note ih = 1 [OF True]
    show ?thesis
    proof (cases "k \<le> i")
      case True
      with \<open>i \<le> j\<close> ih show ?thesis
        by (simp add: max_def upto_rec1 [of i j])
    next
      case False
      with \<open>i \<le> j\<close> ih show ?thesis
        by (simp add: max_def upto_rec1 [of i j])
    qed
  next
    case False then show ?thesis by simp
  qed
qed

lemma map_minus_upto: "map (\<lambda>i. i - k) [a..b] = [a - k .. b - k]"
proof (induction a b rule: upto.induct)
  case (1 i j)
  show ?case
  proof (cases "i \<le> j")
    case True
    with 1 [OF True] show ?thesis
      by (simp add: upto_rec1 [of i j] upto_rec1 [of "i - k" "j - k"] algebra_simps)
  next
    case False then show ?thesis by simp
  qed
qed

lemma constructor_fresh:
  assumes "constructor env opts = Inr s"
  shows "lastScreenshotIndex s = 0" "trace s = []" "lastSnapshot s = None"
  using assms
  by (auto simp: constructor_def setupHttpServer_def init_fields_def Let_def
        split: prod.splits sum.splits if_splits)

lemma artifact_inj [simp]: "artifact s i = artifact s j \<longleftrightarrow> i = j"
  by (simp add: artifact_def)

lemmas construct_defs =
  constructor_def setupHttpServer_def parseInt_def valid_port_def or_default_def
  is_space_def is_digit_def digits_val_def digit_val_def

lemmas capture_defs =
  three_captures_def screenshot_server_def makeSnapshot_def remaining_def artifact_def
  index_of_def example_defs

text \<open>
  C4. On a server as constructed, with screenshots on, the screenshot indices of the
  snapshots that consecutive captures produce are strictly increasing, without repeats
  and not below 0, whatever the outcome of each capture; and when the \<open>N\<close> captures
  all succeed, the indices are exactly \<open>0, 1, \<dots>, N - 1\<close>.
\<close>

theorem screenshot_indices:
  "constructor env opts = Inr s \<and> useScreenshots s \<longrightarrow>
     sorted_wrt (<) (indices (fst (capture_all cs s)))
     \<and> distinct (indices (fst (capture_all cs s)))
     \<and> (\<forall>i \<in> set (indices (fst (capture_all cs s))). 0 \<le> i)
     \<and> ((\<forall>r \<in> set (fst (capture_all cs s)). snapshot_of r \<noteq> None) \<longrightarrow>
          indices (fst (capture_all cs s)) = [0 .. int (length cs) - 1])"
proof
  assume a: "constructor env opts = Inr s \<and> useScreenshots s"
  then have c: "constructor env opts = Inr s" by simp
  have z: "lastScreenshotIndex s = 0" by (rule constructor_fresh [OF c])
  from a have us: "useScreenshots s" by simp
  note g = capture_all_indices [OF us, of cs]
  have d: "distinct (indices (fst (capture_all cs s)))"
    using g strict_sorted_iff by blast
  have e: "indices (fst (capture_all cs s)) = [0 .. int (length cs) - 1]"
    if "\<forall>r \<in> set (fst (capture_all cs s)). snapshot_of r \<noteq> None"
    using capture_all_success [OF us that] z by simp
  from g d e z show "sorted_wrt (<) (indices (fst (capture_all cs s)))
     \<and> distinct (indices (fst (capture_all cs s)))
     \<and> (\<forall>i \<in> set (indices (fst (capture_all cs s))). 0 \<le> i)
     \<and> ((\<forall>r \<in> set (fst (capture_all cs s)). snapshot_of r \<noteq> None) \<longrightarrow>
          indices (fst (capture_all cs s)) = [0 .. int (length cs) - 1])"
    by simp
qed

theorem screenshot_indices_witness:
  "constructor example_env screenshot_options = Inr screenshot_server
   \<and> useScreenshots screenshot_server
   \<and> map index_of (fst (capture_all three_captures screenshot_server))
       = [Some 0, Some 1, Some 2]
   \<and> indices (fst (capture_all three_captures screenshot_server)) = [0, 1, 2]"
proof -
  have h1: "constructor example_env screenshot_options = Inr screenshot_server
      \<and> useScreenshots screenshot_server"
    by (simp add: construct_defs screenshot_server_def init_fields_def or_else_def
          example_env_def screenshot_options_def default_options_def)
  have h2: "\<forall>r \<in> set (fst (capture_all three_captures screenshot_server)).
      snapshot_of r \<noteq> None"
    by code_simp
  have e: "map index_of (fst (capture_all three_captures screenshot_server))
       = [Some 0, Some 1, Some 2]"
    by code_simp
  have u: "[0 .. int (length three_captures) - 1] = [0, 1, 2]"
    by (simp add: three_captures_def upto.simps)
  have "indices (fst (capture_all three_captures screenshot_server))
      = [0 .. int (length three_captures) - 1]"
    by (rule screenshot_indices
          [THEN mp, OF h1, THEN conjunct2, THEN conjunct2, THEN conjunct2, THEN mp, OF h2])
  then have i: "indices (fst (capture_all three_captures screenshot_server)) = [0, 1, 2]"
    by (simp only: u)
  show ?thesis
    by (intro conjI h1 [THEN conjunct1] h1 [THEN conjunct2] e i)
qed

text \<open>
  C3. On a server as constructed, with screenshots on and a retention limit
  \<open>K = maxScreenshotFiles \<ge> 0\<close>, after \<open>N > K\<close> captures that all succeed: the
  files written are those of the indices \<open>0 .. N - 1\<close>; an unlink has been requested
  for exactly the indices \<open>0 .. N - K - 1\<close>, namely for \<open>i - K\<close> at each written
  index \<open>i > K - 1\<close> and at no other; so once the requested unlinks are done, the
  files of the indices \<open>N - K .. N - 1\<close> remain, \<open>K\<close> of them.
\<close>

theorem screenshot_retention:
  "constructor env opts = Inr s \<and> useScreenshots s \<and> 0 \<le> maxScreenshotFiles s
     \<and> maxScreenshotFiles s < int (length cs)
     \<and> (\<forall>r \<in> set (fst (capture_all cs s)). snapshot_of r \<noteq> None) \<longrightarrow>
   written (trace (snd (capture_all cs s))) = map (artifact s) [0 .. int (length cs) - 1]
   \<and> unlinked (trace (snd (capture_all cs s)))
       = map (artifact s) [0 .. int (length cs) - maxScreenshotFiles s - 1]
   \<and> unlinked (trace (snd (capture_all cs s)))
       = map (\<lambda>i. artifact s (i - maxScreenshotFiles s))
           (filter (\<lambda>i. maxScreenshotFiles s - 1 < i) [0 .. int (length cs) - 1])
   \<and> remaining (trace (snd (capture_all cs s)))
       = map (artifact s) [int (length cs) - maxScreenshotFiles s .. int (length cs) - 1]
   \<and> length (remaining (trace (snd (capture_all cs s)))) = nat (maxScreenshotFiles s)"
proof
  let ?K = "maxScreenshotFiles s" and ?N = "int (length cs)"
  let ?tr = "trace (snd (capture_all cs s))"
  assume a: "constructor env opts = Inr s \<and> useScreenshots s \<and> 0 \<le> ?K \<and> ?K < ?N
     \<and> (\<forall>r \<in> set (fst (capture_all cs s)). snapshot_of r \<noteq> None)"
  then have c: "constructor env opts = Inr s" by simp
  have z: "lastScreenshotIndex s = 0" "trace s = []" by (simp_all add: constructor_fresh [OF c])
  from a have us: "useScreenshots s"
    and ok: "\<forall>r \<in> set (fst (capture_all cs s)). snapshot_of r \<noteq> None"
    and K: "0 \<le> ?K" "?K < ?N" by simp_all
  note g = capture_all_success [OF us ok]
  have w: "written ?tr = map (artifact s) [0 .. ?N - 1]" using g z by simp
  have u1: "unlinked ?tr = map (\<lambda>i. artifact s (i - ?K)) (filter (\<lambda>i. ?K - 1 < i) [0 .. ?N - 1])"
    using g z by simp
  have "map (\<lambda>i. artifact s (i - ?K)) (filter (\<lambda>i. ?K - 1 < i) [0 .. ?N - 1])
      = map (artifact s) (map (\<lambda>i. i - ?K) [?K .. ?N - 1])"
    using K by (simp add: filter_upto_ge max_def)
  also have "\<dots> = map (artifact s) [0 .. ?N - ?K - 1]"
    by (simp add: map_minus_upto algebra_simps)
  finally have u2: "unlinked ?tr = map (artifact s) [0 .. ?N - ?K - 1]" using u1 by simp
  have "remaining ?tr
      = map (artifact s) (filter (\<lambda>i. artifact s i \<notin> artifact s ` {0 .. ?N - ?K - 1}) [0 .. ?N - 1])"
    by (simp add: remaining_def w u2 filter_map comp_def)
  also have "filter (\<lambda>i. artifact s i \<notin> artifact s ` {0 .. ?N - ?K - 1}) [0 .. ?N - 1]
      = filter (\<lambda>i. (?N - ?K) - 1 < i) [0 .. ?N - 1]"
    by (rule filter_cong) auto
  also have "\<dots> = [?N - ?K .. ?N - 1]"
    using K by (simp add: filter_upto_ge max_def)
  finally have r: "remaining ?tr = map (artifact s) [?N - ?K .. ?N - 1]" .
  have l: "length (remaining ?tr) = nat ?K" unfolding r using K by simp
  from w u1 u2 r l show "written ?tr = map (artifact s) [0 .. ?N - 1]
   \<and> unlinked ?tr = map (artifact s) [0 .. ?N - ?K - 1]
   \<and> unlinked ?tr = map (\<lambda>i. artifact s (i - ?K)) (filter (\<lambda>i. ?K - 1 < i) [0 .. ?N - 1])
   \<and> remaining ?tr = map (artifact s) [?N - ?K .. ?N - 1]
   \<and> length (remaining ?tr) = nat ?K"
    by simp
qed

theorem screenshot_retention_witness:
  "constructor example_env screenshot_options = Inr screenshot_server
   \<and> useScreenshots screenshot_server
   \<and> maxScreenshotFiles screenshot_server = 2
   \<and> length three_captures = 3
   \<and> map index_of (fst (capture_all three_captures screenshot_server))
       = [Some 0, Some 1, Some 2]
   \<and> unlinked (trace (snd (capture_all three_captures screenshot_server)))
       = [(''live_view'', Some 0)]
   \<and> remaining (trace (snd (capture_all three_captures screenshot_server)))
       = [(''live_view'', Some 1), (''live_view'', Some 2)]
   \<and> length (remaining (trace (snd (capture_all three_captures screenshot_server)))) = 2"
proof -
  have h1: "constructor example_env screenshot_options = Inr screenshot_server"
    by (simp add: construct_defs screenshot_server_def init_fields_def or_else_def
          example_env_def screenshot_options_def default_options_def)
  have k: "maxScreenshotFiles screenshot_server = 2" "useScreenshots screenshot_server"
    by (simp_all add: screenshot_server_def init_fields_def or_else_def
          screenshot_options_def default_options_def)
  have n: "length three_captures = 3"
    by (simp add: three_captures_def)
  have h2: "\<forall>r \<in> set (fst (capture_all three_captures screenshot_server)).
      snapshot_of r \<noteq> None"
    by code_simp
  have e: "map index_of (fst (capture_all three_captures screenshot_server))
       = [Some 0, Some 1, Some 2]"
    by code_simp
  have h: "constructor example_env screenshot_options = Inr screenshot_server
     \<and> useScreenshots screenshot_server \<and> 0 \<le> maxScreenshotFiles screenshot_server
     \<and> maxScreenshotFiles screenshot_server < int (length three_captures)
     \<and> (\<forall>r \<in> set (fst (capture_all three_captures screenshot_server)).
           snapshot_of r \<noteq> None)"
    using h1 k n h2 by simp
  have d: "screenshotDirectoryPath screenshot_server = ''live_view''"
    by (simp add: screenshot_server_def init_fields_def or_else_def
          screenshot_options_def default_options_def example_env_def)
  have u: "map (artifact screenshot_server)
             [0 .. int (length three_captures) - maxScreenshotFiles screenshot_server - 1]
         = [(''live_view'', Some 0)]"
      "map (artifact screenshot_server)
             [int (length three_captures) - maxScreenshotFiles screenshot_server
                .. int (length three_captures) - 1]
         = [(''live_view'', Some 1), (''live_view'', Some 2)]"
    by (simp_all add: k n d upto.simps artifact_def)
  note c = screenshot_retention [THEN mp, OF h]
  have c2: "unlinked (trace (snd (capture_all three_captures screenshot_server)))
       = [(''live_view'', Some 0)]"
    using c [THEN conjunct2, THEN conjunct1] by (simp only: u)
  have c4: "remaining (trace (snd (capture_all three_captures screenshot_server)))
       = [(''live_view'', Some 1), (''live_view'', Some 2)]"
    using c [THEN conjunct2, THEN conjunct2, THEN conjunct2, THEN conjunct1] by (simp only: u)
  have c5: "length (remaining (trace (snd (capture_all three_captures screenshot_server)))) = 2"
    by (simp add: c4)
  show ?thesis
    by (intro conjI h1 k n e c2 c4 c5)
qed

section \<open>The port check of the constructor\<close>

text \<open>
  C9. When \<^verbatim>\<open>parseInt\<close> of the container port is \<^verbatim>\<open>NaN\<close> or a number outside
  \<open>0 .. 65535\<close>, the constructor throws, and at the throw neither the HTTP server nor
  the socket server has been created. When it is a number in \<open>0 .. 65535\<close>, the
  constructor returns the server, with both created and the port stored.
\<close>

theorem constructor_port:
  "(parseInt (or_default (env_container_port env) (local_container_port env)) = None
      \<or> (\<exists>n. parseInt (or_default (env_container_port env) (local_container_port env)) = Some n
             \<and> (n < 0 \<or> 65535 < n)) \<longrightarrow>
      (\<exists>e. constructor env opts = Inl e)
      \<and> \<not> httpServer (snd (setupHttpServer env (init_fields env opts)))
      \<and> \<not> socketio (snd (setupHttpServer env (init_fields env opts))))
   \<and> ((\<exists>n. parseInt (or_default (env_container_port env) (local_container_port env)) = Some n
             \<and> 0 \<le> n \<and> n \<le> 65535) \<longrightarrow>
      (\<exists>s. constructor env opts = Inr s \<and> httpServer s \<and> socketio s
           \<and> port s = parseInt (or_default (env_container_port env) (local_container_port env))))"
  by (auto simp: constructor_def setupHttpServer_def valid_port_def init_fields_def Let_def)

theorem constructor_port_witness:
  "parseInt (or_default (env_container_port nan_port_env) (local_container_port nan_port_env))
     = None
   \<and> (\<exists>e. constructor nan_port_env default_options = Inl e)
   \<and> parseInt (or_default (env_container_port bad_port_env) (local_container_port bad_port_env))
       = Some 70000
   \<and> (\<exists>e. constructor bad_port_env default_options = Inl e)
   \<and> \<not> httpServer (snd (setupHttpServer bad_port_env (init_fields bad_port_env default_options)))
   \<and> parseInt (or_default (env_container_port example_env) (local_container_port example_env))
       = Some 4321
   \<and> (\<exists>s. constructor example_env default_options = Inr s \<and> httpServer s \<and> socketio s
          \<and> port s = parseInt (or_default (env_container_port example_env)
                                   (local_container_port example_env)))"
proof -
  have p1: "parseInt (or_default (env_container_port nan_port_env)
                       (local_container_port nan_port_env)) = None"
    by (simp add: parseInt_def or_default_def is_space_def is_digit_def nan_port_env_def
          example_env_def)
  have p2: "parseInt (or_default (env_container_port bad_port_env)
                       (local_container_port bad_port_env)) = Some 70000"
    by (simp add: parseInt_def or_default_def is_space_def is_digit_def digits_val_def
          digit_val_def bad_port_env_def example_env_def)
  have p3: "parseInt (or_default (env_container_port example_env)
                       (local_container_port example_env)) = Some 4321"
    by (simp add: parseInt_def or_default_def is_space_def is_digit_def digits_val_def
          digit_val_def example_env_def)
  have h1: "parseInt (or_default (env_container_port nan_port_env)
                        (local_container_port nan_port_env)) = None
      \<or> (\<exists>n. parseInt (or_default (env_container_port nan_port_env)
                          (local_container_port nan_port_env)) = Some n
             \<and> (n < 0 \<or> 65535 < n))"
    using p1 by simp
  have h2: "parseInt (or_default (env_container_port bad_port_env)
                        (local_container_port bad_port_env)) = None
      \<or> (\<exists>n. parseInt (or_default (env_container_port bad_port_env)
                          (local_container_port bad_port_env)) = Some n
             \<and> (n < 0 \<or> 65535 < n))"
    using p2 by simp
  have h3: "\<exists>n. parseInt (or_default (env_container_port example_env)
                          (local_container_port example_env)) = Some n
             \<and> 0 \<le> n \<and> n \<le> 65535"
    using p3 by simp
  note c1 = constructor_port [THEN conjunct1, THEN mp, OF h1, THEN conjunct1]
  note c2 = constructor_port [THEN conjunct1, THEN mp, OF h2, of default_options]
  note c3 = constructor_port [THEN conjunct2, THEN mp, OF h3]
  show ?thesis
    by (intro conjI p1 p2 p3 c1 c2 [THEN conjunct1] c2 [THEN conjunct2, THEN conjunct1] c3)
qed

section \<open>Prompts and answers\<close>

lemmas prompt_defs =
  handleResponse_def get_action_def get_handler_def object_prototype_def
  prompt_def prompt_start_def prompt_resume_def socket_promptAnswer_def ok_server_def

lemma handleResponse_trace: "\<exists>post. trace (snd (handleResponse v s)) = trace s @ post"
  by (auto simp: handleResponse_def log_def split: sum.splits option.splits property.splits)

lemma handleResponse_registered:
  assumes "get_action response = Inr a" "js_to_string a = Inr k"
    and "map_of (own (promptHandlers s)) k = Some (Handler f)"
  shows "handleResponse response s
     = (map_sum id Value (f response), s\<lparr>trace := trace s @ [Call k response]\<rparr>)"
  using assms by (simp add: handleResponse_def get_handler_def)

lemma handleResponse_unknown:
  assumes "get_action response = Inr a" "js_to_string a = Inr k"
    and "get_handler (promptHandlers s) k = None"
  shows "handleResponse response s
     = (Inr (Value Undefined), log Warning ''No handler for response action'' s)"
  using assms by (simp add: handleResponse_def)

text \<open>
  C2, as stated, fails: \<^verbatim>\<open>prompt\<close> does not return the response. Here an answer
  with the action \<^verbatim>\<open>ok\<close> arrives as an object (so \<^verbatim>\<open>JSON.parse\<close> of its text
  throws and the payload is used as it is); the promise is fulfilled with it, and the
  call of \<^verbatim>\<open>prompt\<close> ends with another value.
\<close>

theorem prompt_returns_undefined:
  "resolveMessagePromise
      (snd (socket_promptAnswer (Obj [(''action'', Str ''ok''), (''x'', Num ''1'')]) None
              (prompt_start (Obj [(''x'', Num ''1'')]) ok_server)))
     = Some (Fulfilled (Obj [(''action'', Str ''ok''), (''x'', Num ''1'')]))
   \<and> fst (prompt (Obj [(''x'', Num ''1'')]) (Obj [(''action'', Str ''ok''), (''x'', Num ''1'')])
            None ok_server)
       \<noteq> Some (Inr (Obj [(''action'', Str ''ok''), (''x'', Num ''1'')]))"
  by (simp add: prompt_defs example_defs ok_server_def)

text \<open>
  C2, amended. \<^verbatim>\<open>prompt(options)\<close> emits a \<^verbatim>\<open>prompt\<close> event with the options and
  stays suspended until an answer arrives. The answer fulfils the promise with the parsed
  payload, or with the payload itself when parsing throws; only after that, in the
  trace, comes the call of \<^verbatim>\<open>handleResponse\<close> on that same value. The call of
  \<^verbatim>\<open>prompt\<close> then ends with \<^verbatim>\<open>undefined\<close>, or with the error
  \<^verbatim>\<open>handleResponse\<close> throws: the response is not returned.
\<close>

theorem prompt_roundtrip:
  "emitted (trace (prompt_start opts s)) = emitted (trace s) @ [(''prompt'', PData opts)]
   \<and> prompt_resume (prompt_start opts s) = (None, prompt_start opts s)
   \<and> fst (socket_promptAnswer data parsed (prompt_start opts s)) = Inr ()
   \<and> resolveMessagePromise (snd (socket_promptAnswer data parsed (prompt_start opts s)))
       = Some (Fulfilled (case parsed of Some v \<Rightarrow> v | None \<Rightarrow> data))
   \<and> (\<exists>pre. trace (snd (socket_promptAnswer data parsed (prompt_start opts s)))
          = trace (prompt_start opts s) @ pre
              @ [Resolve (case parsed of Some v \<Rightarrow> v | None \<Rightarrow> data)])
   \<and> prompt opts data parsed s
       = (Some (case fst (handleResponse (case parsed of Some v \<Rightarrow> v | None \<Rightarrow> data)
                            (log Debug ''Response data.''
                               (snd (socket_promptAnswer data parsed (prompt_start opts s))))) of
                  Inl e \<Rightarrow> Inl e
                | Inr r \<Rightarrow> Inr Undefined),
          snd (handleResponse (case parsed of Some v \<Rightarrow> v | None \<Rightarrow> data)
                 (log Debug ''Response data.''
                    (snd (socket_promptAnswer data parsed (prompt_start opts s))))))
   \<and> (\<exists>post. trace (snd (prompt opts data parsed s))
          = trace (snd (socket_promptAnswer data parsed (prompt_start opts s)))
              @ Log Debug ''Response data.'' # post)
   \<and> (fst (prompt opts data parsed s) = Some (Inr Undefined)
        \<or> (\<exists>e. fst (prompt opts data parsed s) = Some (Inl e)))"
proof -
  let ?v = "case parsed of Some v \<Rightarrow> v | None \<Rightarrow> data"
  let ?s1 = "prompt_start opts s"
  let ?s2 = "snd (socket_promptAnswer data parsed ?s1)"
  let ?h = "handleResponse ?v (log Debug ''Response data.'' ?s2)"
  have p1: "resolveMessagePromise ?s1 = Some Unsettled"
    by (simp add: prompt_start_def send_def log_def)
  have a: "emitted (trace ?s1) = emitted (trace s) @ [(''prompt'', PData opts)]"
    by (simp add: prompt_start_def send_def log_def)
  have b: "prompt_resume ?s1 = (None, ?s1)"
    by (simp add: prompt_resume_def p1)
  have c: "fst (socket_promptAnswer data parsed ?s1) = Inr ()"
    using p1 by (simp add: socket_promptAnswer_def log_def Let_def split: option.splits)
  have d: "resolveMessagePromise ?s2 = Some (Fulfilled ?v)"
    using p1 by (simp add: socket_promptAnswer_def log_def Let_def split: option.splits)
  have e: "\<exists>pre. trace ?s2 = trace ?s1 @ pre @ [Resolve ?v]"
    using p1 by (simp add: socket_promptAnswer_def log_def Let_def split: option.splits)
  have f: "prompt opts data parsed s
       = (Some (case fst ?h of Inl e \<Rightarrow> Inl e | Inr r \<Rightarrow> Inr Undefined), snd ?h)"
    by (simp add: prompt_def prompt_resume_def d Let_def)
  obtain post where "trace (snd ?h) = trace (log Debug ''Response data.'' ?s2) @ post"
    using handleResponse_trace by blast
  then have g: "\<exists>post. trace (snd (prompt opts data parsed s))
          = trace ?s2 @ Log Debug ''Response data.'' # post"
    by (simp add: f log_def)
  have h: "fst (prompt opts data parsed s) = Some (Inr Undefined)
        \<or> (\<exists>e. fst (prompt opts data parsed s) = Some (Inl e))"
    by (simp add: f split: sum.splits)
  from a b c d e f g h show ?thesis by blast
qed

theorem prompt_roundtrip_witness:
  "fst (prompt (Obj [(''x'', Num ''1'')]) (Obj [(''action'', Str ''ok''), (''x'', Num ''1'')])
          None ok_server) = Some (Inr Undefined)
   \<and> trace (snd (prompt (Obj [(''x'', Num ''1'')])
                  (Obj [(''action'', Str ''ok''), (''x'', Num ''1'')]) None ok_server))
       = [Log Debug ''Sending websocket message'',
          Emit ''prompt'' (PData (Obj [(''x'', Num ''1'')])),
          Log Debug ''Waiting for frontend prompt response'',
          Log Debug ''promptAnswer'',
          Log Debug ''Failed to parse incoming message data'',
          Resolve (Obj [(''action'', Str ''ok''), (''x'', Num ''1'')]),
          Log Debug ''Response data.'',
          Call ''ok'' (Obj [(''action'', Str ''ok''), (''x'', Num ''1'')])]
   \<and> fst (prompt (Obj [(''x'', Num ''1'')]) (Str ''null'') (Some Null) ok_server)
       = Some (Inl (TypeError ''Cannot read property action of null''))"
  using prompt_roundtrip [of "Obj [(''x'', Num ''1'')]" ok_server
          "Obj [(''action'', Str ''ok''), (''x'', Num ''1'')]" None]
        prompt_roundtrip [of "Obj [(''x'', Num ''1'')]" ok_server "Str ''null''" "Some Null"]
  by (simp add: prompt_defs example_defs)

text \<open>
  C8 fails on the code. The handlers object is the default \<^verbatim>\<open>{}\<close>, so no handler is
  registered for any action; for the action \<^verbatim>\<open>__proto__\<close> the lookup
  \<^verbatim>\<open>this.promptHandlers[response.action]\<close> finds \<^verbatim>\<open>Object.prototype\<close>, which is
  truthy and not a function: no warning is logged and the call throws. For the action
  \<^verbatim>\<open>constructor\<close> the lookup finds a built-in function, which is called.
\<close>

theorem handleResponse_inherited_property:
  "map_of (own (promptHandlers fresh_server)) ''__proto__'' = None
   \<and> handleResponse (Obj [(''action'', Str ''__proto__'')]) fresh_server
       = (Inl (TypeError ''this.promptHandlers[response.action] is not a function''),
          fresh_server)
   \<and> map_of (own (promptHandlers fresh_server)) ''constructor'' = None
   \<and> trace (snd (handleResponse (Obj [(''action'', Str ''constructor'')]) fresh_server))
       = [Call ''constructor'' (Obj [(''action'', Str ''constructor'')])]"
  by (simp add: prompt_defs example_defs)

section \<open>The timeout\<close>

lemma serve_abandoned_at_return:
  assumes "snd (snd (serve now p w s)) = Some pend"
  shows "lastSnapshot (fst (snd (serve now p w s))) = lastSnapshot s
       \<and> \<not> servingSnapshot (fst (snd (serve now p w s)))"
proof (cases "hasClients s \<and> \<not> servingSnapshot s \<and> \<not> too_recent now s")
  case False
  then have "\<exists>m. serve now p w s = (Inr (), log Debug m s, None)"
    by (intro serve_skip) auto
  with assms show ?thesis by auto
next
  case True
  let ?l = "Some (timer_delay (snapshotTimeoutMillis s))"
  let ?s1 = "s\<lparr>servingSnapshot := True\<rparr>"
  let ?run = "makeSnapshot_until ?l now p w ?s1"
  have sv: "serve now p w s =
     (Inr (),
          (case addTimeoutToPromise (fst ?run) (snapshotTimeoutMillis s)
                  ''LivecastServer: Serving of Live View timed out.'' of
             Inr snap \<Rightarrow> pushSnapshot snap (snd ?run)
           | Inl err \<Rightarrow> log_exception err ''Serving of page for live view failed'' (snd ?run))
          \<lparr>servingSnapshot := False\<rparr>,
          abandoned (fst ?run))"
    using True by (simp add: serve_admitted Let_def)
  with assms have w: "fst ?run = Waiting pend"
    by (simp add: abandoned_def split: progress.splits)
  have "captured ?l now ?s1 ?run" by (rule captured_until)
  with w have "lastSnapshot (snd ?run) = lastSnapshot s"
    by (simp add: captured_def)
  then show ?thesis
    by (simp add: sv split: sum.splits)
qed

text \<open>
  C1 fails on the code. The timeout is 3000 ms and the page delivers its markup after
  4000 ms. When \<^verbatim>\<open>serve\<close> returns, the flag is clear and the last snapshot is still
  \<^verbatim>\<open>null\<close>; but the capture was not aborted, and when it resumes it stores its
  snapshot in \<^verbatim>\<open>lastSnapshot\<close>, which nobody is sent.
\<close>

theorem serve_timeout_late_snapshot:
  "snapshotTimeoutMillis fresh_server = 3000
   \<and> lastSnapshot (fst (snd (serve 0 (page_after 4000) Hangs fresh_server))) = None
   \<and> \<not> servingSnapshot (fst (snd (serve 0 (page_after 4000) Hangs fresh_server)))
   \<and> snd (snd (serve 0 (page_after 4000) Hangs fresh_server))
       = Some (AwaitGather 4000 ''https://www.example.com'' ''<html>'' None Hangs)
   \<and> lastSnapshot
        (fst (resume_abandoned 0
                (AwaitGather 4000 ''https://www.example.com'' ''<html>'' None Hangs)
                (fst (snd (serve 0 (page_after 4000) Hangs fresh_server)))))
       = Some (new_Snapshot 4000 ''https://www.example.com'' ''<html>'' None)
   \<and> emitted
        (trace (fst (resume_abandoned 0
                (AwaitGather 4000 ''https://www.example.com'' ''<html>'' None Hangs)
                (fst (snd (serve 0 (page_after 4000) Hangs fresh_server)))))) = []"
  by (simp add: example_defs resume_abandoned_def)

text \<open>
  With screenshots on, the abandoned capture also takes a screenshot index and writes
  its file after the timeout.
\<close>

lemma serve_timeout_late_artifact:
  "snd (snd (serve 0 (page_after 4000) (Resolves 5 ()) screenshot_server))
     = Some (AwaitGather 4000 ''https://www.example.com'' ''<html>'' (Some [255, 216])
               (Resolves 5 ()))
   \<and> lastScreenshotIndex
        (fst (resume_abandoned 0
                (AwaitGather 4000 ''https://www.example.com'' ''<html>'' (Some [255, 216])
                   (Resolves 5 ()))
                (fst (snd (serve 0 (page_after 4000) (Resolves 5 ()) screenshot_server))))) = 1
   \<and> snd (resume_abandoned 0
                (AwaitGather 4000 ''https://www.example.com'' ''<html>'' (Some [255, 216])
                   (Resolves 5 ()))
                (fst (snd (serve 0 (page_after 4000) (Resolves 5 ()) screenshot_server))))
       = Some (AwaitWrite 4005 ''https://www.example.com'' ''<html>'' (Some 0))
   \<and> written
        (trace (fst (resume_abandoned 0
                (AwaitWrite 4005 ''https://www.example.com'' ''<html>'' (Some 0))
                (fst (resume_abandoned 0
                  (AwaitGather 4000 ''https://www.example.com'' ''<html>'' (Some [255, 216])
                     (Resolves 5 ()))
                  (fst (snd (serve 0 (page_after 4000) (Resolves 5 ()) screenshot_server))))))))
       = [(''live_view'', Some 0)]"
  by (simp add: capture_defs resume_abandoned_def)

end
